theory Spec2Isabelle
  imports Complex_Main "HOL-Library.Multiset"
begin

section \<open>NumPy arrays of the Bayesian linear regression notebook\<close>

text \<open>
  Lecture \<^verbatim>\<open>01_pyro_basics.ipynb\<close> fits a line \<open>y = b + w x\<close>: the parameter vector is
  \<open>(b, w)\<close>, so every array of the conjugate update has shape \<open>(2,)\<close>, \<open>(2,2)\<close>,
  \<open>(N,2)\<close> or \<open>(N,)\<close>. A vector is a pair, a matrix a pair of rows, a design matrix
  a list of rows. NumPy's floats are modelled by \<^typ>\<open>real\<close>: every result below is
  the result of the same expression in exact arithmetic.
\<close>

type_synonym vec = "real \<times> real"
type_synonym mat = "vec \<times> vec"

text \<open>
  \<open>LinAlgError\<close> is raised by \<^verbatim>\<open>np.linalg.inv\<close> and \<^verbatim>\<open>np.linalg.solve\<close> on a singular
  matrix, \<open>ValueError\<close> by \<^verbatim>\<open>np.dot\<close> on shapes that are not aligned. \<open>NotFinite\<close> is
  no exception of NumPy: a division by \<open>0.0\<close> gives \<open>inf\<close> or \<open>nan\<close> there, which
  \<^typ>\<open>real\<close> does not have, so the model stops with this value instead of dividing.
  \<open>TypeError\<close> is raised by a call with a keyword argument the callee does not accept.
\<close>

datatype error = LinAlgError | ValueError | NotFinite | TypeError

definition diag :: "vec \<Rightarrow> mat" where
  "diag v = ((fst v, 0), (0, snd v))"

definition madd :: "mat \<Rightarrow> mat \<Rightarrow> mat" where
  "madd A B = ((fst (fst A) + fst (fst B), snd (fst A) + snd (fst B)),
               (fst (snd A) + fst (snd B), snd (snd A) + snd (snd B)))"

definition smul :: "real \<Rightarrow> mat \<Rightarrow> mat" where
  "smul c A = ((c * fst (fst A), c * snd (fst A)), (c * fst (snd A), c * snd (snd A)))"

definition vadd :: "vec \<Rightarrow> vec \<Rightarrow> vec" where
  "vadd u v = (fst u + fst v, snd u + snd v)"

definition vsmul :: "real \<Rightarrow> vec \<Rightarrow> vec" where
  "vsmul c v = (c * fst v, c * snd v)"

definition vdiv :: "vec \<Rightarrow> real \<Rightarrow> error + vec" where
  "vdiv v s = (if s = 0 then Inl NotFinite else Inr (fst v / s, snd v / s))"

definition vdot :: "vec \<Rightarrow> vec \<Rightarrow> real" where
  "vdot u v = fst u * fst v + snd u * snd v"

text \<open>\<^verbatim>\<open>np.dot(A, v)\<close> for \<open>A\<close> of shape \<open>(2,2)\<close> and \<open>v\<close> of shape \<open>(2,)\<close>.\<close>

definition dot :: "mat \<Rightarrow> vec \<Rightarrow> vec" where
  "dot A v = (vdot (fst A) v, vdot (snd A) v)"

text \<open>\<^verbatim>\<open>np.dot(v, A)\<close> for \<open>v\<close> of shape \<open>(2,)\<close> and \<open>A\<close> of shape \<open>(2,2)\<close>.\<close>

definition vec_mat :: "vec \<Rightarrow> mat \<Rightarrow> vec" where
  "vec_mat v A = (fst v * fst (fst A) + snd v * fst (snd A),
                  fst v * snd (fst A) + snd v * snd (snd A))"

definition mmul :: "mat \<Rightarrow> mat \<Rightarrow> mat" where
  "mmul A B = (vec_mat (fst A) B, vec_mat (snd A) B)"

definition eye :: mat where
  "eye = ((1, 0), (0, 1))"

definition det :: "mat \<Rightarrow> real" where
  "det A = fst (fst A) * snd (snd A) - snd (fst A) * fst (snd A)"

text \<open>The inverse of a matrix of non-zero determinant, entry by entry.\<close>

definition minv :: "mat \<Rightarrow> mat" where
  "minv A = ((snd (snd A) / det A, - snd (fst A) / det A),
             (- fst (snd A) / det A, fst (fst A) / det A))"

text \<open>\<^verbatim>\<open>np.linalg.inv(A)\<close>: raises on a singular matrix.\<close>

definition linalg_inv :: "mat \<Rightarrow> error + mat" where
  "linalg_inv A = (if det A = 0 then Inl LinAlgError else Inr (minv A))"

text \<open>\<^verbatim>\<open>np.linalg.solve(A, b)\<close>: the solution \<open>x\<close> of \<open>A x = b\<close> (Cramer's rule), raises on a
  singular matrix.\<close>

definition linalg_solve :: "mat \<Rightarrow> vec \<Rightarrow> error + vec" where
  "linalg_solve A b = (if det A = 0 then Inl LinAlgError
     else Inr ((fst b * snd (snd A) - snd (fst A) * snd b) / det A,
               (fst (fst A) * snd b - fst (snd A) * fst b) / det A))"

text \<open>The sum of products of two one-dimensional arrays of the same length.\<close>

definition inner :: "real list \<Rightarrow> real list \<Rightarrow> real" where
  "inner xs ys = sum_list (map2 (*) xs ys)"

text \<open>\<^verbatim>\<open>Phi.T\<close> of a design matrix of shape \<open>(N,2)\<close>: its two columns, as the rows of an
  array of shape \<open>(2,N)\<close>.\<close>

definition transpose_N2 :: "vec list \<Rightarrow> real list \<times> real list" where
  "transpose_N2 Phi = (map fst Phi, map snd Phi)"

text \<open>\<^verbatim>\<open>np.dot(Phi.T, Phi)\<close>: shape \<open>(2,N)\<close> times shape \<open>(N,2)\<close>.\<close>

definition dot_2N_N2 :: "real list \<times> real list \<Rightarrow> vec list \<Rightarrow> mat" where
  "dot_2N_N2 T Phi =
     ((inner (fst T) (map fst Phi), inner (fst T) (map snd Phi)),
      (inner (snd T) (map fst Phi), inner (snd T) (map snd Phi)))"

text \<open>\<^verbatim>\<open>np.dot(Phi.T, y)\<close>: shape \<open>(2,N)\<close> times shape \<open>(M,)\<close>; the shapes are aligned when
  \<open>M = N\<close>.\<close>

definition dot_2N_N :: "real list \<times> real list \<Rightarrow> real list \<Rightarrow> error + vec" where
  "dot_2N_N T y = (if length y = length (fst T) then Inr (inner (fst T) y, inner (snd T) y)
                   else Inl ValueError)"

section \<open>The conjugate update\<close>

text \<open>
  The two assignments of the update cells:
  \<^verbatim>\<open>
  Sn = seps**2*np.linalg.inv(np.dot(Phi.T, Phi) +  seps**2*np.linalg.inv(So))
  mn = np.dot(Sn, np.linalg.solve(So, mo)) + np.dot(Sn, np.dot(Phi.T, y))/seps**2
  \<close>
\<close>

definition Sn_line :: "real \<Rightarrow> vec list \<Rightarrow> mat \<Rightarrow> error + mat" where
  "Sn_line seps Phi So =
     (case linalg_inv So of
        Inl e \<Rightarrow> Inl e
      | Inr Si \<Rightarrow>
          (case linalg_inv (madd (dot_2N_N2 (transpose_N2 Phi) Phi) (smul (seps ^ 2) Si)) of
             Inl e \<Rightarrow> Inl e
           | Inr M \<Rightarrow> Inr (smul (seps ^ 2) M)))"

definition mn_line :: "real \<Rightarrow> vec list \<Rightarrow> real list \<Rightarrow> mat \<Rightarrow> vec \<Rightarrow> mat \<Rightarrow> error + vec" where
  "mn_line seps Phi y So mo Sn =
     (case linalg_solve So mo of
        Inl e \<Rightarrow> Inl e
      | Inr v \<Rightarrow>
          (case dot_2N_N (transpose_N2 Phi) y of
             Inl e \<Rightarrow> Inl e
           | Inr u \<Rightarrow>
               (case vdiv (dot Sn u) (seps ^ 2) of
                  Inl e \<Rightarrow> Inl e
                | Inr t \<Rightarrow> Inr (vadd (dot Sn v) t))))"

text \<open>
  The global variables of the notebook that hold the belief: the prior \<open>(mo, So)\<close> an
  update reads and the posterior \<open>(mn, Sn)\<close> it writes. Before the first update \<open>Sn\<close>
  and \<open>mn\<close> are unbound; no cell reads them then, so their value in the record is
  arbitrary there.
\<close>

record globals =
  So :: mat
  mo :: vec
  Sn :: mat
  mn :: vec

text \<open>The initialization cell: \<^verbatim>\<open>So = np.diag(np.array([sb, sw])**2)\<close>,
  \<^verbatim>\<open>mo = np.array([mb, mw])\<close>.\<close>

definition initialization :: "real \<Rightarrow> real \<Rightarrow> real \<Rightarrow> real \<Rightarrow> globals \<Rightarrow> globals" where
  "initialization mw mb sw sb g = g\<lparr>So := diag (sb ^ 2, sw ^ 2), mo := (mb, mw)\<rparr>"

text \<open>
  The two assignments run in order; an exception in the first leaves both \<open>Sn\<close> and
  \<open>mn\<close> as they were, an exception in the second leaves the new \<open>Sn\<close> assigned. The
  result is the exception, if any, and the globals the cell leaves behind.
\<close>

definition update_lines :: "real \<Rightarrow> vec list \<Rightarrow> real list \<Rightarrow> globals \<Rightarrow> error option \<times> globals" where
  "update_lines seps Phi y g =
     (case Sn_line seps Phi (So g) of
        Inl e \<Rightarrow> (Some e, g)
      | Inr S \<Rightarrow>
          (let g1 = g\<lparr>Sn := S\<rparr> in
           case mn_line seps Phi y (So g1) (mo g1) (Sn g1) of
             Inl e \<Rightarrow> (Some e, g1)
           | Inr m \<Rightarrow> (None, g1\<lparr>mn := m\<rparr>)))"

text \<open>
  The cell of the second observation first hands the posterior over as the new prior
  (\<^verbatim>\<open>So = Sn\<close>, \<^verbatim>\<open>mo = mn\<close>) and then runs the same two assignments: one \<open>update\<close> of the
  belief \<open>(mn, Sn)\<close>.
\<close>

definition handoff :: "globals \<Rightarrow> globals" where
  "handoff g = g\<lparr>So := Sn g, mo := mn g\<rparr>"

definition update :: "real \<Rightarrow> vec list \<Rightarrow> real list \<Rightarrow> globals \<Rightarrow> error option \<times> globals" where
  "update seps Phi y g = update_lines seps Phi y (handoff g)"

text \<open>One update per observation \<open>(Phi_i, y_i)\<close>, each with a design matrix of one row; the
  first exception ends the run.\<close>

fun sequential :: "real \<Rightarrow> (vec \<times> real) list \<Rightarrow> globals \<Rightarrow> error option \<times> globals" where
  "sequential seps [] g = (None, g)"
| "sequential seps (ob # obs) g =
     (case update seps [fst ob] [snd ob] g of
        (Some e, g') \<Rightarrow> (Some e, g')
      | (None, g') \<Rightarrow> sequential seps obs g')"

section \<open>The posterior predictive\<close>

text \<open>
  \<^verbatim>\<open>
  Phi_x = np.vstack(([1]*100, x_test[:, 0])).T
  sx = np.sqrt(np.diag(seps**2 + np.dot(np.dot(Phi_x, Sn), Phi_x.T)))
  ax.plot(x_test, np.dot(Phi_x, mn), '--')
  \<close>
\<close>



text \<open>\<^verbatim>\<open>np.dot(Phi_x, Sn)\<close>: shape \<open>(N,2)\<close> times shape \<open>(2,2)\<close>.\<close>

definition dot_N2_22 :: "vec list \<Rightarrow> mat \<Rightarrow> vec list" where
  "dot_N2_22 Phi_x S = map (\<lambda>r. vec_mat r S) Phi_x"

text \<open>\<^verbatim>\<open>np.dot(A, Phi_x.T)\<close>: shape \<open>(N,2)\<close> times shape \<open>(2,N)\<close>, an array of shape \<open>(N,N)\<close>.\<close>

definition dot_N2_2N :: "vec list \<Rightarrow> vec list \<Rightarrow> real list list" where
  "dot_N2_2N A Phi_x = map (\<lambda>r. map (\<lambda>c. vdot r c) Phi_x) A"

text \<open>A scalar added to an array of shape \<open>(N,N)\<close> is added to every entry.\<close>

definition add_scalar :: "real \<Rightarrow> real list list \<Rightarrow> real list list" where
  "add_scalar c M = map (map (\<lambda>v. c + v)) M"

text \<open>\<^verbatim>\<open>np.diag(M)\<close> of a square array: its diagonal.\<close>

definition diagonal :: "real list list \<Rightarrow> real list" where
  "diagonal M = map (\<lambda>i. M ! i ! i) [0..<length M]"

definition predictive_variance :: "real \<Rightarrow> mat \<Rightarrow> vec list \<Rightarrow> real list" where
  "predictive_variance seps S Phi_x =
     diagonal (add_scalar (seps ^ 2) (dot_N2_2N (dot_N2_22 Phi_x S) Phi_x))"

definition sx :: "real \<Rightarrow> mat \<Rightarrow> vec list \<Rightarrow> real list" where
  "sx seps S Phi_x = map sqrt (predictive_variance seps S Phi_x)"


section \<open>Properties of matrices\<close>

definition symmetric :: "mat \<Rightarrow> bool" where
  "symmetric A \<longleftrightarrow> snd (fst A) = fst (snd A)"

text \<open>The quadratic form \<open>x\<^sup>T A x\<close>.\<close>

definition quad :: "vec \<Rightarrow> mat \<Rightarrow> real" where
  "quad x A = vdot x (dot A x)"

text \<open>Positive (semi-)definiteness by the leading minors, which decides it for a
  symmetric matrix of shape \<open>(2,2)\<close>; the lemmas \<open>pos_def_iff\<close> and \<open>pos_semidef_iff\<close> relate
  it to the quadratic form.\<close>

definition pos_def :: "mat \<Rightarrow> bool" where
  "pos_def A \<longleftrightarrow> symmetric A \<and> 0 < fst (fst A) \<and> 0 < det A"

definition pos_semidef :: "mat \<Rightarrow> bool" where
  "pos_semidef A \<longleftrightarrow> symmetric A \<and> 0 \<le> fst (fst A) \<and> 0 \<le> snd (snd A) \<and> 0 \<le> det A"

definition is_inverse :: "mat \<Rightarrow> mat \<Rightarrow> bool" where
  "is_inverse A B \<longleftrightarrow> mmul A B = eye \<and> mmul B A = eye"

section \<open>The update in closed form\<close>

text \<open>The adjugate: \<open>minv A\<close> is \<open>adj A\<close> divided by the determinant.\<close>

definition adj :: "mat \<Rightarrow> mat" where
  "adj A = ((snd (snd A), - snd (fst A)), (- fst (snd A), fst (fst A)))"

definition zero_mat :: mat where
  "zero_mat = ((0, 0), (0, 0))"

definition outer :: "vec \<Rightarrow> vec \<Rightarrow> mat" where
  "outer u v = ((fst u * fst v, fst u * snd v), (snd u * fst v, snd u * snd v))"

text \<open>\<open>\<Phi>\<^sup>T \<Phi>\<close> as the sum of the outer products of the design rows, and \<open>\<Phi>\<^sup>T y\<close> as the
  sum of the design rows weighted by their targets.\<close>

fun gram :: "vec list \<Rightarrow> mat" where
  "gram [] = zero_mat"
| "gram (p # Phi) = madd (outer p p) (gram Phi)"

fun moment :: "vec list \<Rightarrow> real list \<Rightarrow> vec" where
  "moment (p # Phi) (v # y) = vadd (vsmul v p) (moment Phi y)"
| "moment Phi y = (0, 0)"

text \<open>The posterior covariance and mean in terms of the inverse matrix.\<close>

definition post_cov :: "real \<Rightarrow> vec list \<Rightarrow> mat \<Rightarrow> mat" where
  "post_cov seps Phi S = smul (seps ^ 2) (minv (madd (gram Phi) (smul (seps ^ 2) (minv S))))"

definition post_mean :: "real \<Rightarrow> vec list \<Rightarrow> real list \<Rightarrow> mat \<Rightarrow> vec \<Rightarrow> vec" where
  "post_mean seps Phi y S m =
     vadd (dot (post_cov seps Phi S) (dot (minv S) m))
          (vsmul (1 / seps ^ 2) (dot (post_cov seps Phi S) (moment Phi y)))"

text \<open>Globals in which nothing has been assigned yet: the four entries are placeholders
  that the initialization and the first update overwrite before any cell reads them.\<close>

definition unassigned :: globals where
  "unassigned = \<lparr>So = zero_mat, mo = (0, 0), Sn = zero_mat, mn = (0, 0)\<rparr>"


text \<open>The information form of the belief: the precision (inverse covariance) of the
  posterior is the precision of the prior plus \<open>\<Phi>\<^sup>T \<Phi> / seps\<^sup>2\<close>, and the precision
  applied to the mean grows by \<open>\<Phi>\<^sup>T y / seps\<^sup>2\<close>.\<close>

definition precision :: "real \<Rightarrow> vec list \<Rightarrow> mat \<Rightarrow> mat" where
  "precision seps Phi S = madd (minv S) (smul (1 / seps ^ 2) (gram Phi))"

definition information :: "real \<Rightarrow> vec list \<Rightarrow> real list \<Rightarrow> mat \<Rightarrow> vec \<Rightarrow> vec" where
  "information seps Phi y S m = vadd (dot (minv S) m) (vsmul (1 / seps ^ 2) (moment Phi y))"

section \<open>Model and guide of the variational inference lecture\<close>

text \<open>
  The lecture on stochastic variational inference declares a model and a guide over the
  latent sites \<open>w\<close>, \<open>b\<close> and \<open>s\<close>. \<open>Normal\<close>, \<open>Uniform\<close> and \<^verbatim>\<open>pyro.sample\<close> belong to the
  Pyro and PyTorch libraries, which are not part of the sources. The two distribution
  families are modelled by their contract there: the constraint on the arguments (a
  positive scale, a lower bound below the upper bound) and the support (the real line,
  the closed interval).
\<close>

datatype distribution = Normal real real | Uniform real real

fun valid_args :: "distribution \<Rightarrow> bool" where
  "valid_args (Normal loc scale) \<longleftrightarrow> 0 < scale"
| "valid_args (Uniform low high) \<longleftrightarrow> low < high"

fun support :: "distribution \<Rightarrow> real \<Rightarrow> bool" where
  "support (Normal loc scale) v \<longleftrightarrow> True"
| "support (Uniform low high) v \<longleftrightarrow> low \<le> v \<and> v \<le> high"

text \<open>Modelled from the spec: the pathwise draw of its section 4.2, a deterministic
  transform of a draw \<open>eps\<close> of fixed distribution (standard normal noise for \<open>Normal\<close>,
  uniform noise on the unit interval for \<open>Uniform\<close>); the sampler of the library is
  missing from the sources.\<close>

fun rsample :: "distribution \<Rightarrow> real \<Rightarrow> real" where
  "rsample (Normal loc scale) eps = loc + eps * scale"
| "rsample (Uniform low high) u = low + u * (high - low)"

text \<open>
  A sample statement \<^verbatim>\<open>pyro.sample(name, fn, **kwargs)\<close> of a latent site: its name, its
  distribution and the names of the keyword arguments it passes besides. The distribution
  is built first and, with validation switched on as the notebook does with
  \<^verbatim>\<open>pyro.enable_validation(True)\<close>, invalid arguments raise \<open>ValueError\<close>. \<^verbatim>\<open>pyro.sample\<close> hands
  every such keyword argument on to the call of the distribution, which accepts none:
  the statement raises \<open>TypeError\<close>. Otherwise the value of the site is a draw from the
  distribution, here a function of the noise drawn for the site.
\<close>

type_synonym site = "string \<times> distribution \<times> string list"

definition pyro_sample :: "site \<Rightarrow> (string \<Rightarrow> real) \<Rightarrow> error + real" where
  "pyro_sample st noise =
     (case st of (name, d, kwargs) \<Rightarrow>
        if \<not> valid_args d then Inl ValueError
        else if kwargs \<noteq> [] then Inl TypeError
        else Inr (rsample d (noise name)))"

text \<open>The sample statements of a function run in order; the first exception ends the
  run, otherwise the run leaves the value of every site.\<close>

fun run_sites :: "site list \<Rightarrow> (string \<Rightarrow> real) \<Rightarrow> error + (string \<times> real) list" where
  "run_sites [] noise = Inr []"
| "run_sites (st # sts) noise =
     (case pyro_sample st noise of
        Inl e \<Rightarrow> Inl e
      | Inr v \<Rightarrow>
          (case run_sites sts noise of
             Inl e \<Rightarrow> Inl e
           | Inr tr \<Rightarrow> Inr ((fst st, v) # tr)))"

text \<open>
  \<^verbatim>\<open>
  def guide(x, y=None):
      w_loc = pyro.param("w_loc", torch.tensor(0.))
      w_scale = pyro.param("w_scale", torch.tensor(1.), constraint=constraints.positive)
      w = pyro.sample("w", Normal(w_loc, w_scale))
      b_loc = pyro.param("b_loc", torch.tensor(0.))
      b_scale = pyro.param("b_scale", torch.tensor(1.), constraint=constraints.positive)
      b = pyro.sample("b", Normal(b_loc, b_scale))
      s_loc = pyro.param("s_loc", torch.tensor(1.), constraint=constraints.positive)
      s = pyro.sample("s", Normal(s_loc, torch.tensor(0.05)), constraint=constraints.positive)
  \<close>
  The parameters of the guide, with the values they are registered with, and its three
  sample statements; the last one passes the keyword \<open>constraint\<close> to \<^verbatim>\<open>pyro.sample\<close>. The
  guide reads neither \<open>x\<close> nor \<open>y\<close>.
\<close>

record params =
  w_loc :: real
  w_scale :: real
  b_loc :: real
  b_scale :: real
  s_loc :: real


definition guide_sites :: "params \<Rightarrow> site list" where
  "guide_sites nu =
     [(''w'', Normal (w_loc nu) (w_scale nu), []),
      (''b'', Normal (b_loc nu) (b_scale nu), []),
      (''s'', Normal (s_loc nu) (5 / 100), [''constraint''])]"

definition guide ::
  "params \<Rightarrow> real list \<Rightarrow> real list option \<Rightarrow> (string \<Rightarrow> real) \<Rightarrow> error + (string \<times> real) list"
where
  "guide nu x y noise = run_sites (guide_sites nu) noise"

text \<open>
  \<^verbatim>\<open>
  def model_obs(x, y=None):
      w = pyro.sample("w", Normal(0.0, 10.0))
      b = pyro.sample("b", Normal(0.0, 10.0))
      s = pyro.sample("s", Uniform(0.01, 10.0))
      with pyro.plate('dataset', size=len(x)):
          return pyro.sample("y", Normal(x*w + b, s), obs=y)
  \<close>
  Of the model only its declarations are embedded: the sample statements of the three
  latent sites, and the distribution \<open>Normal(x\<^sub>i w + b, s)\<close> it declares for the observation
  at one input \<open>x\<^sub>i\<close>. How the plate runs over the data is left out.
\<close>

definition model_obs_sites :: "site list" where
  "model_obs_sites =
     [(''w'', Normal 0 10, []), (''b'', Normal 0 10, []), (''s'', Uniform (1 / 100) 10, [])]"

definition model_obs_likelihood :: "real \<Rightarrow> real \<Rightarrow> real \<Rightarrow> real \<Rightarrow> distribution" where
  "model_obs_likelihood xi w b s = Normal (xi * w + b) s"

text \<open>The distribution a list of sample statements declares for a site, a draw from it,
  and whether a value lies in its support.\<close>

definition site_distribution :: "site list \<Rightarrow> string \<Rightarrow> distribution option" where
  "site_distribution sites name = map_option fst (map_of sites name)"

definition draw_site :: "site list \<Rightarrow> string \<Rightarrow> real \<Rightarrow> real option" where
  "draw_site sites name eps = map_option (\<lambda>d. rsample d eps) (site_distribution sites name)"

definition in_site_support :: "site list \<Rightarrow> string \<Rightarrow> real \<Rightarrow> bool" where
  "in_site_support sites name v =
     (case site_distribution sites name of None \<Rightarrow> False | Some d \<Rightarrow> support d v)"

section \<open>Matrix algebra\<close>

lemmas mat_defs = madd_def smul_def vadd_def vsmul_def vdot_def dot_def vec_mat_def mmul_def
  eye_def det_def adj_def symmetric_def quad_def

lemma minv_adj: "minv A = smul (1 / det A) (adj A)"
  by (simp add: minv_def smul_def adj_def)


lemma mmul_adj_right: "mmul A (adj A) = smul (det A) eye"
  by (simp add: mat_defs algebra_simps)


lemma mmul_smul_right: "mmul A (smul c B) = smul c (mmul A B)"
  by (simp add: mat_defs algebra_simps)

lemma smul_smul: "smul c (smul e A) = smul (c * e) A"
  by (simp add: mat_defs algebra_simps)

lemma smul_one: "smul 1 A = A"
  by (simp add: mat_defs)


lemma mmul_minv_right: "det A \<noteq> 0 \<Longrightarrow> mmul A (minv A) = eye"
  by (simp add: minv_adj mmul_smul_right mmul_adj_right smul_smul smul_one)


lemma det_smul: "det (smul c A) = c ^ 2 * det A"
  by (simp add: mat_defs power2_eq_square algebra_simps)

lemma det_adj: "det (adj A) = det A"
  by (simp add: mat_defs algebra_simps)

lemma adj_adj: "adj (adj A) = A"
  by (simp add: mat_defs)

lemma adj_smul: "adj (smul c A) = smul c (adj A)"
  by (simp add: mat_defs)

lemma det_minv: "det A \<noteq> 0 \<Longrightarrow> det (minv A) = 1 / det A"
  by (simp add: minv_adj det_smul det_adj power2_eq_square)

lemma minv_minv: "det A \<noteq> 0 \<Longrightarrow> minv (minv A) = A"
  by (simp add: minv_adj det_smul det_adj adj_smul adj_adj smul_smul power2_eq_square smul_one)

lemma minv_smul: "c \<noteq> 0 \<Longrightarrow> minv (smul c A) = smul (1 / c) (minv A)"
  by (simp add: minv_adj det_smul adj_smul smul_smul power2_eq_square)

lemma dot_mmul: "dot (mmul A B) v = dot A (dot B v)"
  by (simp add: mat_defs algebra_simps)

lemma dot_eye: "dot eye v = v"
  by (simp add: mat_defs)


lemma dot_dot_minv: "det A \<noteq> 0 \<Longrightarrow> dot A (dot (minv A) v) = v"
  by (simp add: dot_mmul [symmetric] mmul_minv_right dot_eye)

section \<open>Positive definite matrices\<close>

lemma quad_expand:
  "quad (x0, x1) ((a, b), (c, d)) = a * x0 ^ 2 + (b + c) * x0 * x1 + d * x1 ^ 2"
  by (simp add: mat_defs power2_eq_square algebra_simps)

lemma quad_madd: "quad x (madd A B) = quad x A + quad x B"
  by (simp add: mat_defs algebra_simps)

lemma quad_smul: "quad x (smul c A) = c * quad x A"
  by (simp add: mat_defs algebra_simps)

lemma pos_def_quad:
  assumes "pos_def A" "x \<noteq> (0, 0)"
  shows "0 < quad x A"
proof -
  obtain a b c d where A: "A = ((a, b), (c, d))" by (metis prod.collapse)
  obtain x0 x1 where x: "x = (x0, x1)" by (metis prod.collapse)
  from assms(1) A have bc: "c = b" and a: "0 < a" and D: "0 < a * d - b * b"
    by (auto simp: pos_def_def symmetric_def det_def)
  have eq: "a * quad x A = (a * x0 + b * x1) ^ 2 + (a * d - b * b) * x1 ^ 2"
    unfolding A x bc quad_expand by (simp add: power2_eq_square algebra_simps)
  have "0 < (a * x0 + b * x1) ^ 2 + (a * d - b * b) * x1 ^ 2"
  proof (cases "x1 = 0")
    case True
    with assms(2) x have "x0 \<noteq> 0" by simp
    with a True show ?thesis by simp
  next
    case False
    then have "0 < (a * d - b * b) * x1 ^ 2" using D by simp
    moreover have "0 \<le> (a * x0 + b * x1) ^ 2" by simp
    ultimately show ?thesis by linarith
  qed
  with eq have "0 < a * quad x A" by simp
  with a show ?thesis by (simp add: zero_less_mult_iff)
qed

lemma quad_pos_def:
  assumes "symmetric A" "\<And>x. x \<noteq> (0, 0) \<Longrightarrow> 0 < quad x A"
  shows "pos_def A"
proof -
  obtain a b c d where A: "A = ((a, b), (c, d))" by (metis prod.collapse)
  from assms(1) A have bc: "c = b" by (simp add: symmetric_def)
  have "0 < quad (1, 0) A" by (rule assms(2)) simp
  then have a: "0 < a" unfolding A quad_expand by simp
  have "0 < quad (- b, a) A" by (rule assms(2)) (use a in simp)
  also have "quad (- b, a) A = a * (a * d - b * b)"
    unfolding A bc quad_expand by (simp add: power2_eq_square algebra_simps)
  finally have "0 < a * d - b * b" using a by (simp add: zero_less_mult_iff)
  with a assms(1) show ?thesis by (simp add: pos_def_def A bc det_def)
qed

lemma pos_def_iff: "pos_def A \<longleftrightarrow> symmetric A \<and> (\<forall>x. x \<noteq> (0, 0) \<longrightarrow> 0 < quad x A)"
  using pos_def_quad quad_pos_def pos_def_def by blast

lemma pos_semidef_quad:
  assumes "pos_semidef A"
  shows "0 \<le> quad x A"
proof -
  obtain a b c d where A: "A = ((a, b), (c, d))" by (metis prod.collapse)
  obtain x0 x1 where x: "x = (x0, x1)" by (metis prod.collapse)
  from assms(1) A have bc: "c = b" and a: "0 \<le> a" and d: "0 \<le> d" and D: "0 \<le> a * d - b * b"
    by (auto simp: pos_semidef_def symmetric_def det_def)
  show ?thesis
  proof (cases "a = 0")
    case True
    with D have "b * b \<le> 0" by simp
    then have "b = 0" by (auto simp: mult_le_0_iff)
    with True d show ?thesis unfolding A x bc quad_expand by simp
  next
    case False
    with a have a': "0 < a" by simp
    have eq: "a * quad x A = (a * x0 + b * x1) ^ 2 + (a * d - b * b) * x1 ^ 2"
      unfolding A x bc quad_expand by (simp add: power2_eq_square algebra_simps)
    have "0 \<le> (a * d - b * b) * x1 ^ 2" using D by simp
    then have "0 \<le> a * quad x A" unfolding eq by simp
    with a' show ?thesis by (simp add: zero_le_mult_iff)
  qed
qed

lemma quad_pos_semidef:
  assumes "symmetric A" "\<And>x. 0 \<le> quad x A"
  shows "pos_semidef A"
proof -
  obtain a b c d where A: "A = ((a, b), (c, d))" by (metis prod.collapse)
  from assms(1) A have bc: "c = b" by (simp add: symmetric_def)
  have "0 \<le> quad (1, 0) A" by (rule assms(2))
  then have a: "0 \<le> a" unfolding A quad_expand by simp
  have "0 \<le> quad (0, 1) A" by (rule assms(2))
  then have d: "0 \<le> d" unfolding A quad_expand by simp
  have D: "0 \<le> a * d - b * b"
  proof (cases "a = 0")
    case True
    have "0 \<le> quad (- d, b) A" by (rule assms(2))
    also have "quad (- d, b) A = - (b * b * d)"
      unfolding A bc quad_expand True by (simp add: power2_eq_square algebra_simps)
    finally have 1: "b * b * d \<le> 0" by simp
    have "0 \<le> quad (- b, 1) A" by (rule assms(2))
    also have "quad (- b, 1) A = d - 2 * b * b"
      unfolding A bc quad_expand True by (simp add: power2_eq_square algebra_simps)
    finally have 2: "2 * b * b \<le> d" by simp
    have "b = 0"
    proof (rule ccontr)
      assume "b \<noteq> 0"
      then have bb: "0 < b * b" by (auto simp: zero_less_mult_iff)
      with 2 have "0 < d" by linarith
      with bb have "0 < b * b * d" by simp
      with 1 show False by simp
    qed
    with True show ?thesis by simp
  next
    case False
    with a have a': "0 < a" by simp
    have "0 \<le> quad (- b, a) A" by (rule assms(2))
    also have "quad (- b, a) A = a * (a * d - b * b)"
      unfolding A bc quad_expand by (simp add: power2_eq_square algebra_simps)
    finally show ?thesis using a' by (simp add: zero_le_mult_iff)
  qed
  with a d assms(1) show ?thesis by (simp add: pos_semidef_def A bc det_def)
qed

lemma pos_semidef_iff: "pos_semidef A \<longleftrightarrow> symmetric A \<and> (\<forall>x. 0 \<le> quad x A)"
  using pos_semidef_quad quad_pos_semidef pos_semidef_def by blast

lemma symmetric_madd: "symmetric A \<Longrightarrow> symmetric B \<Longrightarrow> symmetric (madd A B)"
  by (simp add: symmetric_def madd_def)

lemma symmetric_smul: "symmetric A \<Longrightarrow> symmetric (smul c A)"
  by (simp add: symmetric_def smul_def)

lemma pos_def_madd: "pos_def A \<Longrightarrow> pos_semidef B \<Longrightarrow> pos_def (madd A B)"
  unfolding pos_def_iff pos_semidef_iff
  by (auto simp: symmetric_madd quad_madd intro: add_pos_nonneg)

lemma pos_def_smul: "0 < c \<Longrightarrow> pos_def A \<Longrightarrow> pos_def (smul c A)"
  unfolding pos_def_iff by (auto simp: symmetric_smul quad_smul)

lemma pos_def_det: "pos_def A \<Longrightarrow> det A \<noteq> 0"
  by (simp add: pos_def_def)

lemma pos_def_imp_semidef:
  assumes "pos_def A"
  shows "pos_semidef A"
proof (rule quad_pos_semidef)
  show "symmetric A" using assms by (simp add: pos_def_def)
next
  fix x :: vec
  show "0 \<le> quad x A"
  proof (cases "x = (0, 0)")
    case True
    then show ?thesis by (simp add: quad_def dot_def vdot_def)
  next
    case False
    with assms show ?thesis using pos_def_quad less_eq_real_def by blast
  qed
qed

lemma pos_def_minv:
  assumes "pos_def A"
  shows "pos_def (minv A)"
proof -
  obtain a b c d where A: "A = ((a, b), (c, d))" by (metis prod.collapse)
  from assms A have bc: "c = b" and a: "0 < a" and D: "0 < a * d - b * b"
    by (auto simp: pos_def_def symmetric_def det_def)
  have "0 \<le> b * b" by simp
  with D have "0 < a * d" by linarith
  with a have d: "0 < d" by (simp add: zero_less_mult_iff)
  have dA: "det A = a * d - b * b" by (simp add: A bc det_def)
  have "det (minv A) = 1 / det A" using D dA by (simp add: det_minv)
  then have "0 < det (minv A)" using D dA by simp
  moreover have "symmetric (minv A)" by (simp add: minv_def symmetric_def A bc)
  moreover have "0 < fst (fst (minv A))" using d D dA by (simp add: minv_def A)
  ultimately show ?thesis by (simp add: pos_def_def)
qed

section \<open>The NumPy expressions and the closed form\<close>

lemma inner_Nil [simp]: "inner [] ys = 0" "inner xs [] = 0"
  by (simp_all add: inner_def)

lemma inner_Cons [simp]: "inner (x # xs) (y # ys) = x * y + inner xs ys"
  by (simp add: inner_def)

lemma gram_inner:
  "gram Phi = ((inner (map fst Phi) (map fst Phi), inner (map fst Phi) (map snd Phi)),
               (inner (map snd Phi) (map fst Phi), inner (map snd Phi) (map snd Phi)))"
  by (induction Phi) (simp_all add: zero_mat_def madd_def outer_def)

lemma dot_2N_N2_gram: "dot_2N_N2 (transpose_N2 Phi) Phi = gram Phi"
  by (simp add: gram_inner dot_2N_N2_def transpose_N2_def)

lemma moment_inner:
  "length y = length Phi \<Longrightarrow> moment Phi y = (inner (map fst Phi) y, inner (map snd Phi) y)"
  by (induction Phi y rule: moment.induct) (simp_all add: vadd_def vsmul_def mult.commute)

lemma dot_2N_N_moment:
  "length y = length Phi \<Longrightarrow> dot_2N_N (transpose_N2 Phi) y = Inr (moment Phi y)"
  by (simp add: moment_inner dot_2N_N_def transpose_N2_def)

lemma quad_outer: "quad x (outer p p) = (vdot p x) ^ 2"
  by (simp add: quad_def dot_def vdot_def outer_def power2_eq_square algebra_simps)

lemma quad_zero_mat: "quad x zero_mat = 0"
  by (simp add: quad_def dot_def vdot_def zero_mat_def)

lemma quad_gram: "quad x (gram Phi) = (\<Sum>p\<leftarrow>Phi. (vdot p x) ^ 2)"
  by (induction Phi) (simp_all add: quad_zero_mat quad_madd quad_outer)

lemma symmetric_gram: "symmetric (gram Phi)"
  by (induction Phi) (simp_all add: zero_mat_def symmetric_def madd_def outer_def mult.commute)

lemma pos_semidef_gram: "pos_semidef (gram Phi)"
  by (rule quad_pos_semidef) (auto simp: symmetric_gram quad_gram intro!: sum_list_nonneg)

lemma linalg_inv_ok: "det A \<noteq> 0 \<Longrightarrow> linalg_inv A = Inr (minv A)"
  by (simp add: linalg_inv_def)

lemma linalg_solve_ok: "det A \<noteq> 0 \<Longrightarrow> linalg_solve A b = Inr (dot (minv A) b)"
  by (simp add: linalg_solve_def minv_def dot_def vdot_def diff_divide_distrib algebra_simps)

lemma vdiv_ok: "s \<noteq> 0 \<Longrightarrow> vdiv v s = Inr (vsmul (1 / s) v)"
  by (simp add: vdiv_def vsmul_def)

lemma pos_def_inner:
  assumes "pos_def S" "seps \<noteq> 0"
  shows "pos_def (madd (gram Phi) (smul (seps ^ 2) (minv S)))"
proof -
  have "pos_def (smul (seps ^ 2) (minv S))"
    using assms by (simp add: pos_def_smul pos_def_minv)
  then have "pos_def (madd (smul (seps ^ 2) (minv S)) (gram Phi))"
    by (rule pos_def_madd) (rule pos_semidef_gram)
  moreover have "madd (smul (seps ^ 2) (minv S)) (gram Phi)
                 = madd (gram Phi) (smul (seps ^ 2) (minv S))"
    by (simp add: madd_def)
  ultimately show ?thesis by simp
qed

lemma pos_def_post_cov:
  assumes "pos_def S" "seps \<noteq> 0"
  shows "pos_def (post_cov seps Phi S)"
  unfolding post_cov_def using assms
  by (simp add: pos_def_smul pos_def_minv pos_def_inner)

lemma Sn_line_ok:
  assumes "pos_def S" "seps \<noteq> 0"
  shows "Sn_line seps Phi S = Inr (post_cov seps Phi S)"
proof -
  have 1: "linalg_inv S = Inr (minv S)"
    using assms(1) by (simp add: linalg_inv_ok pos_def_det)
  have 2: "linalg_inv (madd (gram Phi) (smul (seps ^ 2) (minv S)))
           = Inr (minv (madd (gram Phi) (smul (seps ^ 2) (minv S))))"
    using pos_def_inner [OF assms, of Phi] by (simp add: linalg_inv_ok pos_def_det)
  show ?thesis by (simp add: Sn_line_def dot_2N_N2_gram 1 2 post_cov_def)
qed

lemma mn_line_ok:
  assumes "pos_def S" "seps \<noteq> 0" "length y = length Phi"
  shows "mn_line seps Phi y S m (post_cov seps Phi S) = Inr (post_mean seps Phi y S m)"
  using assms
  by (simp add: mn_line_def linalg_solve_ok pos_def_det dot_2N_N_moment vdiv_ok post_mean_def)

lemma update_lines_ok:
  assumes "pos_def (So g)" "seps \<noteq> 0" "length y = length Phi"
  shows "update_lines seps Phi y g =
    (None, g\<lparr>Sn := post_cov seps Phi (So g), mn := post_mean seps Phi y (So g) (mo g)\<rparr>)"
  using assms by (simp add: update_lines_def Sn_line_ok mn_line_ok)

lemma update_ok:
  assumes "pos_def (Sn g)" "seps \<noteq> 0" "length y = length Phi"
  shows "update seps Phi y g =
    (None, g\<lparr>So := Sn g, mo := mn g, Sn := post_cov seps Phi (Sn g),
             mn := post_mean seps Phi y (Sn g) (mn g)\<rparr>)"
  using assms by (simp add: update_def handoff_def update_lines_ok)

lemma mmul_assoc: "mmul (mmul A B) C = mmul A (mmul B C)"
  by (simp add: mat_defs algebra_simps)

lemma mmul_eye_left: "mmul eye A = A"
  by (simp add: mat_defs)

lemma mmul_eye_right: "mmul A eye = A"
  by (simp add: mat_defs)

text \<open>A matrix has at most one inverse, so \<open>is_inverse A B\<close> determines \<open>B\<close>.\<close>

lemma is_inverse_unique:
  assumes "is_inverse A B" "is_inverse A C"
  shows "B = C"
proof -
  have "B = mmul B (mmul A C)" using assms(2) by (simp add: is_inverse_def mmul_eye_right)
  also have "\<dots> = mmul (mmul B A) C" by (simp add: mmul_assoc)
  also have "\<dots> = C" using assms(1) by (simp add: is_inverse_def mmul_eye_left)
  finally show ?thesis .
qed

lemma length_predictive_variance: "length (predictive_variance seps S Phi_x) = length Phi_x"
  by (simp add: predictive_variance_def diagonal_def add_scalar_def dot_N2_2N_def dot_N2_22_def)




lemmas eval_defs = update_lines_def update_def handoff_def initialization_def Sn_line_def
  mn_line_def linalg_inv_def linalg_solve_def dot_2N_N2_def dot_2N_N_def transpose_N2_def
  vdiv_def unassigned_def diag_def zero_mat_def minv_def

section \<open>Monotonicity and the information form\<close>

lemma pos_semidef_det_pos_def:
  assumes "pos_semidef A" "det A \<noteq> 0"
  shows "pos_def A"
proof -
  obtain a b c d where A: "A = ((a, b), (c, d))" by (metis prod.collapse)
  from assms A have bc: "c = b" and a: "0 \<le> a" and D: "0 < a * d - b * b"
    by (auto simp: pos_semidef_def symmetric_def det_def)
  have "a \<noteq> 0"
  proof
    assume "a = 0"
    with D have "b * b < 0" by simp
    moreover have "0 \<le> b * b" by simp
    ultimately show False by linarith
  qed
  with a D show ?thesis by (simp add: pos_def_def symmetric_def det_def A bc)
qed

lemma Sn_after_update:
  "Sn (snd (update seps Phi y g)) = (case Sn_line seps Phi (Sn g) of Inl e \<Rightarrow> Sn g | Inr S \<Rightarrow> S)"
  by (simp add: update_def update_lines_def handoff_def Let_def split: sum.splits)

lemma Sn_line_singular: "det S = 0 \<Longrightarrow> Sn_line seps Phi S = Inl LinAlgError"
  by (simp add: Sn_line_def linalg_inv_def)

lemma madd_commute: "madd A B = madd B A"
  by (simp add: madd_def)

lemma smul_madd: "smul c (madd A B) = madd (smul c A) (smul c B)"
  by (simp add: madd_def smul_def algebra_simps)

lemma post_cov_precision:
  assumes "seps \<noteq> 0"
  shows "post_cov seps Phi S = minv (precision seps Phi S)"
proof -
  have "precision seps Phi S = smul (1 / seps ^ 2) (madd (gram Phi) (smul (seps ^ 2) (minv S)))"
    using assms by (simp add: precision_def smul_madd smul_smul smul_one madd_commute)
  then show ?thesis using assms by (simp add: post_cov_def minv_smul)
qed

lemma pos_def_precision:
  assumes "pos_def S"
  shows "pos_def (precision seps Phi S)"
proof -
  have "pos_semidef (smul (1 / seps ^ 2) (gram Phi))"
    using pos_semidef_gram [of Phi] unfolding pos_semidef_iff
    by (auto simp: symmetric_smul quad_smul)
  with assms show ?thesis unfolding precision_def by (simp add: pos_def_madd pos_def_minv)
qed










lemma mn_line_not_LinAlgError:
  "det S \<noteq> 0 \<Longrightarrow> mn_line seps Phi y S m S' \<noteq> Inl LinAlgError"
  by (simp add: mn_line_def linalg_solve_ok dot_2N_N_def vdiv_def)

lemma update_LinAlgError:
  assumes "fst (update seps Phi y g) = Some LinAlgError"
  shows "snd (update seps Phi y g) = handoff g"
proof (cases "Sn_line seps Phi (Sn g)")
  case (Inl e)
  then show ?thesis by (simp add: update_def update_lines_def handoff_def)
next
  case (Inr S)
  then have "det (Sn g) \<noteq> 0"
    by (auto simp: Sn_line_def linalg_inv_def split: if_splits)
  then have "mn_line seps Phi y (Sn g) (mn g) S \<noteq> Inl LinAlgError"
    by (rule mn_line_not_LinAlgError)
  with Inr assms show ?thesis
    by (auto simp: update_def update_lines_def handoff_def Let_def split: sum.splits)
qed

lemma madd_assoc: "madd (madd A B) C = madd A (madd B C)"
  by (simp add: madd_def)

lemma madd_zero_right: "madd A zero_mat = A"
  by (simp add: madd_def zero_mat_def)

lemma vadd_assoc: "vadd (vadd u v) w = vadd u (vadd v w)"
  by (simp add: vadd_def)

lemma vsmul_vadd: "vsmul c (vadd u v) = vadd (vsmul c u) (vsmul c v)"
  by (simp add: vadd_def vsmul_def algebra_simps)

lemma dot_vadd: "dot A (vadd u v) = vadd (dot A u) (dot A v)"
  by (simp add: mat_defs algebra_simps)

lemma dot_vsmul: "dot A (vsmul c v) = vsmul c (dot A v)"
  by (simp add: mat_defs algebra_simps)

lemma vsmul_zero: "vsmul c (0, 0) = (0, 0)"
  by (simp add: vsmul_def)

lemma vadd_zero_left: "vadd (0, 0) v = v"
  by (simp add: vadd_def)

lemma post_mean_information:
  assumes "seps \<noteq> 0"
  shows "post_mean seps Phi y S m = dot (minv (precision seps Phi S)) (information seps Phi y S m)"
  using assms
  by (simp add: post_mean_def information_def post_cov_precision dot_vadd dot_vsmul)

lemma update_information:
  assumes "pos_def (Sn g)" "seps \<noteq> 0" "length y = length Phi"
  shows "\<exists>g'. update seps Phi y g = (None, g') \<and> pos_def (Sn g') \<and>
           minv (Sn g') = precision seps Phi (Sn g) \<and>
           dot (minv (Sn g')) (mn g') = information seps Phi y (Sn g) (mn g)"
proof -
  let ?B = "precision seps Phi (Sn g)"
  have B: "det ?B \<noteq> 0" using assms(1) by (simp add: pos_def_precision pos_def_det)
  have "pos_def (minv ?B)" using assms(1) by (simp add: pos_def_precision pos_def_minv)
  moreover have "minv (minv ?B) = ?B" using B by (rule minv_minv)
  moreover have "dot (minv (minv ?B)) (dot (minv ?B) (information seps Phi y (Sn g) (mn g)))
                 = information seps Phi y (Sn g) (mn g)"
    using B by (simp add: minv_minv dot_dot_minv)
  ultimately show ?thesis
    using assms by (simp add: update_ok post_cov_precision post_mean_information)
qed

lemma sequential_information:
  assumes "pos_def (Sn g)" "seps \<noteq> 0"
  shows "\<exists>g'. sequential seps obs g = (None, g') \<and> pos_def (Sn g') \<and>
           minv (Sn g') = precision seps (map fst obs) (Sn g) \<and>
           dot (minv (Sn g')) (mn g') = information seps (map fst obs) (map snd obs) (Sn g) (mn g)"
  using assms(1)
proof (induction obs arbitrary: g)
  case Nil
  then show ?case
    by (simp add: precision_def information_def zero_mat_def madd_def smul_def vadd_def vsmul_def)
next
  case (Cons ob obs)
  obtain g1 where g1: "update seps [fst ob] [snd ob] g = (None, g1)" "pos_def (Sn g1)"
    "minv (Sn g1) = precision seps [fst ob] (Sn g)"
    "dot (minv (Sn g1)) (mn g1) = information seps [fst ob] [snd ob] (Sn g) (mn g)"
    using update_information [OF Cons.prems assms(2), of "[snd ob]" "[fst ob]"] by auto
  obtain g' where g': "sequential seps obs g1 = (None, g')" "pos_def (Sn g')"
    "minv (Sn g') = precision seps (map fst obs) (Sn g1)"
    "dot (minv (Sn g')) (mn g') = information seps (map fst obs) (map snd obs) (Sn g1) (mn g1)"
    using Cons.IH [OF g1(2)] by auto
  have "minv (Sn g') = precision seps (map fst (ob # obs)) (Sn g)"
    unfolding g'(3) precision_def g1(3)
    by (simp add: smul_madd madd_assoc madd_zero_right)
  moreover have "dot (minv (Sn g')) (mn g')
      = information seps (map fst (ob # obs)) (map snd (ob # obs)) (Sn g) (mn g)"
    unfolding g'(4) information_def g1(4)
    by (simp add: vsmul_vadd vadd_assoc vsmul_zero vadd_zero_left)
  ultimately show ?case using g1(1) g'(1,2) by simp
qed

lemma gram_sum:
  "gram Phi = ((\<Sum>p\<leftarrow>Phi. fst p * fst p, \<Sum>p\<leftarrow>Phi. fst p * snd p),
               (\<Sum>p\<leftarrow>Phi. snd p * fst p, \<Sum>p\<leftarrow>Phi. snd p * snd p))"
  by (induction Phi) (simp_all add: zero_mat_def madd_def outer_def)

lemma moment_sum:
  "moment (map fst obs) (map snd obs)
   = (\<Sum>ob\<leftarrow>obs. snd ob * fst (fst ob), \<Sum>ob\<leftarrow>obs. snd ob * snd (fst ob))"
  by (induction obs) (simp_all add: vadd_def vsmul_def)

lemma sum_list_mset_cong:
  fixes f :: "'a \<Rightarrow> real"
  assumes "mset xs = mset ys"
  shows "sum_list (map f xs) = sum_list (map f ys)"
proof -
  have "sum_list (map f xs) = sum_mset (image_mset f (mset xs))"
    by (simp add: sum_mset_sum_list [symmetric])
  also have "\<dots> = sum_mset (image_mset f (mset ys))" using assms by simp
  also have "\<dots> = sum_list (map f ys)" by (simp add: sum_mset_sum_list [symmetric])
  finally show ?thesis .
qed

lemma gram_permutation:
  assumes "mset obs = mset obs'"
  shows "gram (map fst obs) = gram (map fst obs')"
proof -
  have "mset (map fst obs) = mset (map fst obs')" using assms by (metis mset_map)
  then have "sum_list (map f (map fst obs)) = sum_list (map f (map fst obs'))" for f :: "vec \<Rightarrow> real"
    by (rule sum_list_mset_cong)
  then show ?thesis unfolding gram_sum by blast
qed

lemma moment_permutation:
  assumes "mset obs = mset obs'"
  shows "moment (map fst obs) (map snd obs) = moment (map fst obs') (map snd obs')"
  unfolding moment_sum using assms by (simp add: sum_list_mset_cong [of obs obs'])

section \<open>Inputs and states of the predictive cell\<close>






text \<open>The prior covariance the initialization cell builds is symmetric positive
  semi-definite, and an update keeps the covariance so (claim C5).\<close>

lemma pos_semidef_initialization: "pos_semidef (So (initialization mw mb sw sb g))"
  by (simp add: initialization_def diag_def pos_semidef_def symmetric_def det_def)


section \<open>The sample statements of guide and model\<close>

text \<open>With positive scales, as the constraints on the parameters keep them, the guide
  raises \<open>TypeError\<close> at its last sample statement, whatever the data and the noise.\<close>

lemma guide_raises:
  "0 < w_scale nu \<Longrightarrow> 0 < b_scale nu \<Longrightarrow> guide nu x y noise = Inl TypeError"
  by (simp add: guide_def guide_sites_def pyro_sample_def)

text \<open>The distribution the guide declares for the site \<open>s\<close> is \<open>Normal(s_loc, 0.05)\<close>: a
  draw from it with noise \<open>eps \<le> - 20 s_loc\<close> is not positive, lies outside the support of
  the \<open>Uniform(0.01, 10.0)\<close> the model declares for \<open>s\<close>, and is no valid scale of the
  likelihood.\<close>

lemma site_s_draw_leaves_prior_support:
  assumes "eps \<le> - 20 * s_loc nu"
  shows "draw_site (guide_sites nu) ''s'' eps = Some (s_loc nu + eps * (5 / 100)) \<and>
         s_loc nu + eps * (5 / 100) \<le> 0 \<and>
         \<not> in_site_support model_obs_sites ''s'' (s_loc nu + eps * (5 / 100)) \<and>
         \<not> valid_args (model_obs_likelihood xi w b (s_loc nu + eps * (5 / 100)))"
proof -
  have le: "s_loc nu + eps * (5 / 100) \<le> 0" using assms by simp
  then show ?thesis
    by (simp add: draw_site_def site_distribution_def guide_sites_def in_site_support_def
        model_obs_sites_def model_obs_likelihood_def)
qed

section \<open>The claims\<close>





text \<open>
  Claim C3. From a belief with a symmetric positive definite covariance and with a fixed
  noise scale \<open>seps \<noteq> 0\<close>, one update with the whole batch \<open>(Phi, y)\<close> and one update per
  observation, with the observations of the batch taken in any order, both raise nothing
  and end in the same mean and the same covariance (in exact arithmetic).
\<close>

theorem batch_equals_sequential:
  assumes "pos_def (Sn g)" and "seps \<noteq> 0" and "length y = length Phi"
    and "mset obs = mset (zip Phi y)"
  shows "fst (update seps Phi y g) = None \<and> fst (sequential seps obs g) = None \<and>
         Sn (snd (sequential seps obs g)) = Sn (snd (update seps Phi y g)) \<and>
         mn (snd (sequential seps obs g)) = mn (snd (update seps Phi y g))"
proof -
  obtain g1 where g1: "update seps Phi y g = (None, g1)" "pos_def (Sn g1)"
    "minv (Sn g1) = precision seps Phi (Sn g)"
    "dot (minv (Sn g1)) (mn g1) = information seps Phi y (Sn g) (mn g)"
    using update_information [OF assms(1-3)] by auto
  obtain g2 where g2: "sequential seps obs g = (None, g2)" "pos_def (Sn g2)"
    "minv (Sn g2) = precision seps (map fst obs) (Sn g)"
    "dot (minv (Sn g2)) (mn g2) = information seps (map fst obs) (map snd obs) (Sn g) (mn g)"
    using sequential_information [OF assms(1,2), of obs] by auto
  have z: "map fst (zip Phi y) = Phi" "map snd (zip Phi y) = y"
    using assms(3) by simp_all
  have G: "gram (map fst obs) = gram Phi"
    using gram_permutation [OF assms(4)] z by simp
  have M: "moment (map fst obs) (map snd obs) = moment Phi y"
    using moment_permutation [OF assms(4)] z by simp
  have P: "minv (Sn g2) = minv (Sn g1)"
    unfolding g1(3) g2(3) precision_def G ..
  have "minv (minv (Sn g2)) = minv (minv (Sn g1))" using P by simp
  then have S: "Sn g2 = Sn g1" using g1(2) g2(2) by (simp add: minv_minv pos_def_det)
  have "dot (minv (Sn g2)) (mn g2) = dot (minv (Sn g1)) (mn g1)"
    unfolding g1(4) g2(4) information_def M ..
  then have "dot (Sn g1) (dot (minv (Sn g1)) (mn g2)) = dot (Sn g1) (dot (minv (Sn g1)) (mn g1))"
    unfolding S by simp
  then have "mn g2 = mn g1" using g1(2) by (simp add: dot_dot_minv pos_def_det)
  with S g1(1) g2(1) show ?thesis by simp
qed

theorem batch_equals_sequential_witness:
  "pos_def (Sn (unassigned\<lparr>Sn := diag (25, 25), mn := (0, 0)\<rparr>)) \<and> (1::real) \<noteq> 0 \<and>
   length [2::real, - 2] = length [(1::real, 2::real), (1, - 2)] \<and>
   mset [((1::real, - 2::real), - 2::real), ((1, 2), 2)] = mset (zip [(1, 2), (1, - 2)] [2, - 2]) \<and>
   fst (sequential 1 [((1, - 2), - 2), ((1, 2), 2)] (unassigned\<lparr>Sn := diag (25, 25), mn := (0, 0)\<rparr>)) = None \<and>
   Sn (snd (sequential 1 [((1, - 2), - 2), ((1, 2), 2)] (unassigned\<lparr>Sn := diag (25, 25), mn := (0, 0)\<rparr>)))
     = ((25 / 51, 0), (0, 25 / 201)) \<and>
   mn (snd (sequential 1 [((1, - 2), - 2), ((1, 2), 2)] (unassigned\<lparr>Sn := diag (25, 25), mn := (0, 0)\<rparr>)))
     = (0, 200 / 201)"
proof -
  let ?g = "unassigned\<lparr>Sn := diag (25, 25), mn := (0, 0)\<rparr>"
  have h1: "pos_def (Sn ?g)"
    by (simp add: pos_def_def symmetric_def det_def diag_def)
  have h2: "(1::real) \<noteq> 0" by simp
  have h3: "length [2::real, - 2] = length [(1::real, 2::real), (1, - 2)]" by simp
  have h4: "mset [((1::real, - 2::real), - 2::real), ((1, 2), 2)] = mset (zip [(1, 2), (1, - 2)] [2, - 2])"
    by simp
  have b: "update 1 [(1, 2), (1, - 2)] [2, - 2] ?g
     = (None, unassigned\<lparr>So := diag (25, 25), mo := (0, 0),
          Sn := ((25 / 51, 0), (0, 25 / 201)), mn := (0, 200 / 201)\<rparr>)"
    by (simp add: eval_defs mat_defs)
  show ?thesis
    using batch_equals_sequential [OF h1 h2 h3 h4] h1 h2 h3 h4 unfolding b by simp
qed

text \<open>
  Claim C4, as amended. With the prior of the notebook (mean \<open>[0, 0]\<close>, covariance
  \<open>diag(25, 25)\<close>), the observation \<open>Phi = [[1, 2]]\<close>, \<open>y = [2]\<close> and \<open>seps = 1\<close>, the first
  update gives the covariance \<open>[[2525/126, -625/63], [-625/63, 325/63]]\<close>, about
  \<open>[[20.040, -9.921], [-9.921, 5.159]]\<close>, and the mean \<open>[25/63, 50/63]\<close>, for which
  \<open>b + 2 w = 125/63\<close> is within \<open>0.02\<close> of \<open>2\<close>.
\<close>

theorem first_update_values:
  "update_lines 1 [(1, 2)] [2] (initialization 0 0 5 5 unassigned) =
     (None, unassigned\<lparr>So := diag (25, 25), mo := (0, 0),
        Sn := ((2525 / 126, - (625 / 63)), (- (625 / 63), 325 / 63)), mn := (25 / 63, 50 / 63)\<rparr>) \<and>
   \<bar>fst (mn (snd (update_lines 1 [(1, 2)] [2] (initialization 0 0 5 5 unassigned))))
      + 2 * snd (mn (snd (update_lines 1 [(1, 2)] [2] (initialization 0 0 5 5 unassigned)))) - 2\<bar>
     < 2 / 100"
  by (simp add: eval_defs mat_defs)

text \<open>The first entry of that covariance is more than \<open>19\<close> away from the \<open>0.962\<close> of the
  claim.\<close>

theorem first_update_entry_counterexample:
  "19 < \<bar>fst (fst (Sn (snd (update_lines 1 [(1, 2)] [2] (initialization 0 0 5 5 unassigned)))))
        - 962 / 1000\<bar>"
  by (simp add: eval_defs mat_defs)

text \<open>
  Claim C5. An update with \<open>seps \<noteq> 0\<close> of a belief whose covariance is symmetric positive
  semi-definite leaves a symmetric positive semi-definite covariance behind, whether it
  completes or raises: a singular covariance makes it raise before \<open>Sn\<close> is assigned, and
  otherwise the new \<open>Sn\<close> is positive definite. No other cell assigns \<open>Sn\<close>.
\<close>

theorem update_keeps_pos_semidef:
  assumes "pos_semidef (Sn g)" and "seps \<noteq> 0"
  shows "pos_semidef (Sn (snd (update seps Phi y g)))"
proof (cases "det (Sn g) = 0")
  case True
  then show ?thesis using assms(1) by (simp add: Sn_after_update Sn_line_singular)
next
  case False
  with assms(1) have pd: "pos_def (Sn g)" by (rule pos_semidef_det_pos_def)
  then have "pos_def (post_cov seps Phi (Sn g))" using assms(2) by (rule pos_def_post_cov)
  then show ?thesis
    using pd assms(2) by (simp add: Sn_after_update Sn_line_ok pos_def_imp_semidef)
qed

theorem update_keeps_pos_semidef_witness:
  "pos_semidef (Sn (unassigned\<lparr>Sn := diag (25, 25), mn := (0, 0)\<rparr>)) \<and> (1::real) \<noteq> 0 \<and>
   pos_semidef (Sn (snd (update 1 [(1, 2)] [2] (unassigned\<lparr>Sn := diag (25, 25), mn := (0, 0)\<rparr>))))"
proof -
  let ?g = "unassigned\<lparr>Sn := diag (25, 25), mn := (0, 0)\<rparr>"
  have h1: "pos_semidef (Sn ?g)"
    by (simp add: pos_semidef_def symmetric_def det_def diag_def)
  have h2: "(1::real) \<noteq> 0" by simp
  show ?thesis using update_keeps_pos_semidef [OF h1 h2, of "[(1, 2)]" "[2]"] h1 h2 by blast
qed






text \<open>
  Claim C8, as amended. When an update raises \<open>LinAlgError\<close> (the covariance or the matrix
  \<open>\<Phi>\<^sup>T \<Phi> + seps\<^sup>2 \<Sigma>\<^sup>-\<^sup>1\<close> is singular), the belief \<open>(mn, Sn)\<close> is exactly what it was before
  the call, and the exception is the outcome of the call.
\<close>

theorem singular_update_keeps_belief:
  assumes "fst (update seps Phi y g) = Some LinAlgError"
  shows "Sn (snd (update seps Phi y g)) = Sn g \<and> mn (snd (update seps Phi y g)) = mn g"
  using update_LinAlgError [OF assms] by (simp add: handoff_def)

theorem singular_update_keeps_belief_witness:
  "fst (update 1 [(1, - 2)] [- 2] (unassigned\<lparr>Sn := diag (0, 25), mn := (1, 3)\<rparr>)) = Some LinAlgError \<and>
   Sn (snd (update 1 [(1, - 2)] [- 2] (unassigned\<lparr>Sn := diag (0, 25), mn := (1, 3)\<rparr>))) = diag (0, 25) \<and>
   mn (snd (update 1 [(1, - 2)] [- 2] (unassigned\<lparr>Sn := diag (0, 25), mn := (1, 3)\<rparr>))) = (1, 3)"
proof -
  let ?g = "unassigned\<lparr>Sn := diag (0, 25), mn := (1, 3)\<rparr>"
  have h: "fst (update 1 [(1, - 2)] [- 2] ?g) = Some LinAlgError"
    by (simp add: eval_defs mat_defs)
  show ?thesis using singular_update_keeps_belief [OF h] h by simp
qed

text \<open>
  An update that raises in its second assignment has already replaced the covariance:
  with two targets for one design row \<^verbatim>\<open>np.dot(Phi.T, y)\<close> raises \<open>ValueError\<close>, \<open>Sn\<close> is
  the new covariance and \<open>mn\<close> the old mean.
\<close>

theorem failed_update_partial_counterexample:
  "fst (update 1 [(1, - 2)] [- 2, 2] (unassigned\<lparr>Sn := diag (25, 25), mn := (0, 0)\<rparr>)) = Some ValueError \<and>
   Sn (unassigned\<lparr>Sn := diag (25, 25), mn := (0, 0)\<rparr>) = ((25, 0), (0, 25)) \<and>
   Sn (snd (update 1 [(1, - 2)] [- 2, 2] (unassigned\<lparr>Sn := diag (25, 25), mn := (0, 0)\<rparr>)))
     = ((2525 / 126, 625 / 63), (625 / 63, 325 / 63)) \<and>
   mn (snd (update 1 [(1, - 2)] [- 2, 2] (unassigned\<lparr>Sn := diag (25, 25), mn := (0, 0)\<rparr>))) = (0, 0)"
  by (simp add: eval_defs mat_defs)


end
